theory Spec2Isabelle
  imports Main "HOL-Library.Sublist"
begin

section \<open>Strings\<close>

text \<open>
  A Python \<^verbatim>\<open>str\<close> is modelled as a \<^typ>\<open>string\<close> whose characters are the code
  points 0..255. On that range \<^verbatim>\<open>str.lower\<close> maps A..Z and the Latin-1 capitals
  (0xC0..0xDE without 0xD7) to the character 32 places further, and \<^verbatim>\<open>str.strip\<close>
  removes the characters for which \<^verbatim>\<open>str.isspace\<close> holds.
\<close>

definition lower_char :: "char \<Rightarrow> char" where
  "lower_char c =
     (let n = of_char c :: nat
      in if (65 \<le> n \<and> n \<le> 90) \<or> (192 \<le> n \<and> n \<le> 222 \<and> n \<noteq> 215)
         then char_of (n + 32) else c)"

definition lower :: "string \<Rightarrow> string" where
  "lower s = map lower_char s"

definition is_space :: "char \<Rightarrow> bool" where
  "is_space c =
     (let n = of_char c :: nat
      in (9 \<le> n \<and> n \<le> 13) \<or> (28 \<le> n \<and> n \<le> 32) \<or> n = 133 \<or> n = 160)"

definition lstrip :: "string \<Rightarrow> string" where
  "lstrip s = dropWhile is_space s"

definition lstrip_char :: "char \<Rightarrow> string \<Rightarrow> string" where
  "lstrip_char c s = dropWhile (\<lambda>x. x = c) s"

definition strip :: "string \<Rightarrow> string" where
  "strip s = rev (dropWhile is_space (rev (dropWhile is_space s)))"

text \<open>\<^verbatim>\<open>p in s\<close> for strings: \<open>p\<close> occurs as a contiguous run of \<open>s\<close>.\<close>

fun contains :: "string \<Rightarrow> string \<Rightarrow> bool" where
  "contains [] p = (p = [])"
| "contains (c # cs) p = (prefix p (c # cs) \<or> contains cs p)"

text \<open>\<^verbatim>\<open>s.split(d)\<close> for a one-character separator: never empty.\<close>

primrec split_on :: "char \<Rightarrow> string \<Rightarrow> string list" where
  "split_on d [] = [[]]"
| "split_on d (c # cs) =
     (let r = split_on d cs
      in if c = d then [] # r else (c # hd r) # tl r)"

text \<open>\<^verbatim>\<open>sep.join(xs)\<close>.\<close>

fun join :: "string \<Rightarrow> string list \<Rightarrow> string" where
  "join sep [] = []"
| "join sep [x] = x"
| "join sep (x # y # ys) = x @ sep @ join sep (y # ys)"

text \<open>\<^verbatim>\<open>s.replace('**', '')\<close>: occurrences are removed left to right, without overlap.\<close>

fun remove_bold :: "string \<Rightarrow> string" where
  "remove_bold (a # b # cs) =
     (if a = CHR ''*'' \<and> b = CHR ''*'' then remove_bold cs else a # remove_bold (b # cs))"
| "remove_bold cs = cs"

text \<open>\<^verbatim>\<open>str(i)\<close> for a list index.\<close>

fun dec_str :: "nat \<Rightarrow> string" where
  "dec_str n =
     (if n < 10 then [char_of (48 + n)]
      else dec_str (n div 10) @ [char_of (48 + n mod 10)])"

declare dec_str.simps [simp del]

section \<open>Documents\<close>

text \<open>
  A parsed JSON value. A mapping keeps its pairs in insertion order, as a Python
  \<^verbatim>\<open>dict\<close> does; numbers are never inspected by the program and carry an opaque
  payload \<open>'n\<close>.
\<close>

datatype 'n json =
    JNull
  | JBool bool
  | JNum 'n
  | JStr string
  | JArr "'n json list"
  | JObj "(string \<times> 'n json) list"

text \<open>
  The exceptions that the modelled functions can raise: the division by zero of the
  segmenter, and the interpreter's refusal of a call nested too deep.
\<close>

datatype error = ZeroDivisionError | RecursionError

record LocationRecord =
  name :: string
  weather :: "string list"
  waves :: "string list"

definition WAYPOINT_KEYWORDS :: "string list" where
  "WAYPOINT_KEYWORDS = [''waypoint'', ''buoy'', ''destination'', ''port'', ''harbor'',
     ''location'', ''place'', ''name'', ''point'']"

definition WEATHER_KEYWORDS :: "string list" where
  "WEATHER_KEYWORDS = [''weather'', ''wind'', ''temperature'', ''temp'', ''pressure'',
     ''humidity'', ''visibility'', ''condition'', ''forecast'']"

definition WAVE_KEYWORDS :: "string list" where
  "WAVE_KEYWORDS = [''wave'', ''swell'', ''height'', ''period'', ''direction'', ''sea'',
     ''surf'', ''tide'', ''current'']"

text \<open>\<^verbatim>\<open>any(keyword in key_lower for keyword in KEYWORDS)\<close>\<close>

definition any_keyword :: "string list \<Rightarrow> string \<Rightarrow> bool" where
  "any_keyword kws key_lower = list_ex (\<lambda>keyword. contains key_lower keyword) kws"

text \<open>\<^verbatim>\<open>f"{key}: {value.strip()}"\<close>\<close>

definition fact :: "string \<Rightarrow> string \<Rightarrow> string" where
  "fact key v = key @ '': '' @ strip v"

section \<open>Fact Classifier\<close>

text \<open>
  \<^verbatim>\<open>extract_location_data\<close> appends to the list \<^verbatim>\<open>locations\<close> of the enclosing
  function and returns either that same list object (line 117) or a new empty list
  (line 109). The caller extends \<^verbatim>\<open>locations\<close> by what was returned, so it matters
  which object that is: the result of a call is a reference, read in the current state
  of \<^verbatim>\<open>locations\<close>.
\<close>

datatype listref = Ref_locations | New_empty

fun deref :: "listref \<Rightarrow> LocationRecord list \<Rightarrow> LocationRecord list" where
  "deref Ref_locations locations = locations"
| "deref New_empty locations = []"

text \<open>\<^verbatim>\<open>if nested_result: locations.extend(nested_result)\<close>\<close>

definition extend_if :: "listref \<Rightarrow> LocationRecord list \<Rightarrow> LocationRecord list" where
  "extend_if nested_result locations =
     (if deref nested_result locations \<noteq> [] then locations @ deref nested_result locations
      else locations)"

text \<open>The local variables of one mapping node.\<close>

record node =
  location_name :: "string option"
  weather_data :: "string list"
  wave_data :: "string list"

definition node0 :: node where
  "node0 = \<lparr>location_name = None, weather_data = [], wave_data = []\<rparr>"

text \<open>The two inner loops over a mapping under a weather or wave key (lines 83-85, 87-89).\<close>

fun sub_facts :: "(string \<times> 'n json) list \<Rightarrow> string list" where
  "sub_facts [] = []"
| "sub_facts ((sub_key, sub_value) # rest) =
     (case sub_value of
        JStr s \<Rightarrow> (if strip s \<noteq> [] then fact sub_key s # sub_facts rest else sub_facts rest)
      | _ \<Rightarrow> sub_facts rest)"

text \<open>\<^verbatim>\<open>f"{parent_key}.{key}" if parent_key else key\<close> and its indexed variants.\<close>

definition dot_key :: "string \<Rightarrow> string \<Rightarrow> string" where
  "dot_key parent_key key = (if parent_key \<noteq> [] then parent_key @ ''.'' @ key else key)"

definition idx_key :: "string \<Rightarrow> nat \<Rightarrow> string" where
  "idx_key parent_key i = parent_key @ ''['' @ dec_str i @ '']''"

definition dot_idx_key :: "string \<Rightarrow> string \<Rightarrow> nat \<Rightarrow> string" where
  "dot_idx_key parent_key key i =
     (if parent_key \<noteq> [] then parent_key @ ''.'' @ key @ ''['' @ dec_str i @ '']''
      else key @ ''['' @ dec_str i @ '']'')"

text \<open>The branch for a scalar string value (lines 70-79).\<close>

definition classify_str :: "string \<Rightarrow> string \<Rightarrow> node \<Rightarrow> node" where
  "classify_str key s nd =
     (let key_lower = lower key
      in if any_keyword WAYPOINT_KEYWORDS key_lower then nd\<lparr>location_name := Some (strip s)\<rparr>
         else if any_keyword WEATHER_KEYWORDS key_lower
           then nd\<lparr>weather_data := weather_data nd @ [fact key s]\<rparr>
         else if any_keyword WAVE_KEYWORDS key_lower
           then nd\<lparr>wave_data := wave_data nd @ [fact key s]\<rparr>
         else nd)"

text \<open>\<^verbatim>\<open>if location_name and (weather_data or wave_data)\<close>\<close>

definition qualifies :: "node \<Rightarrow> bool" where
  "qualifies nd =
     ((case location_name nd of None \<Rightarrow> False | Some n \<Rightarrow> n \<noteq> [])
      \<and> (weather_data nd \<noteq> [] \<or> wave_data nd \<noteq> []))"

definition record_of :: "node \<Rightarrow> LocationRecord" where
  "record_of nd = \<lparr>name = the (location_name nd), weather = weather_data nd, waves = wave_data nd\<rparr>"

text \<open>
  \<^verbatim>\<open>extract_location_data(obj, parent_key)\<close> in the state \<open>locations\<close>; \<open>extract_items\<close>
  is the loop over \<^verbatim>\<open>obj.items()\<close>, \<open>extract_elems\<close> the loops over
  \<^verbatim>\<open>enumerate(...)\<close>, whose key for element \<open>i\<close> is \<open>mk i\<close>.
\<close>

fun extract_location_data ::
      "'n json \<Rightarrow> string \<Rightarrow> LocationRecord list \<Rightarrow> listref \<times> LocationRecord list"
  and extract_items ::
      "(string \<times> 'n json) list \<Rightarrow> string \<Rightarrow> node \<Rightarrow> LocationRecord list
        \<Rightarrow> node \<times> LocationRecord list"
  and extract_elems ::
      "'n json list \<Rightarrow> (nat \<Rightarrow> string) \<Rightarrow> nat \<Rightarrow> LocationRecord list \<Rightarrow> LocationRecord list"
where
  "extract_location_data (JObj kvs) parent_key locations =
     (case extract_items kvs parent_key node0 locations of
        (nd, locations') \<Rightarrow>
          if qualifies nd then (New_empty, locations' @ [record_of nd])
          else (Ref_locations, locations'))"
| "extract_location_data (JArr xs) parent_key locations =
     (Ref_locations,
      extract_elems xs
        (\<lambda>i. if parent_key \<noteq> [] then idx_key parent_key i else idx_key [] i) 0 locations)"
| "extract_location_data JNull parent_key locations = (Ref_locations, locations)"
| "extract_location_data (JBool b) parent_key locations = (Ref_locations, locations)"
| "extract_location_data (JNum n) parent_key locations = (Ref_locations, locations)"
| "extract_location_data (JStr s) parent_key locations = (Ref_locations, locations)"
| "extract_items [] parent_key nd locations = (nd, locations)"
| "extract_items ((key, v) # rest) parent_key nd locations =
     (case v of
        JStr s \<Rightarrow>
          if strip s \<noteq> [] then extract_items rest parent_key (classify_str key s nd) locations
          else extract_items rest parent_key nd locations
      | JObj sub \<Rightarrow>
          if any_keyword WEATHER_KEYWORDS (lower key)
            then extract_items rest parent_key
                   (nd\<lparr>weather_data := weather_data nd @ sub_facts sub\<rparr>) locations
          else if any_keyword WAVE_KEYWORDS (lower key)
            then extract_items rest parent_key
                   (nd\<lparr>wave_data := wave_data nd @ sub_facts sub\<rparr>) locations
          else (case extract_location_data (JObj sub) (dot_key parent_key key) locations of
                  (nested_result, locations') \<Rightarrow>
                    extract_items rest parent_key nd (extend_if nested_result locations'))
      | JArr xs \<Rightarrow>
          extract_items rest parent_key nd
            (extract_elems xs (dot_idx_key parent_key key) 0 locations)
      | _ \<Rightarrow> extract_items rest parent_key nd locations)"
| "extract_elems [] mk i locations = locations"
| "extract_elems (item # rest) mk i locations =
     (case extract_location_data item (mk i) locations of
        (nested_result, locations') \<Rightarrow>
          extract_elems rest mk (Suc i) (extend_if nested_result locations'))"

section \<open>Fallback Flattener\<close>

record flat =
  waypoints :: "string list"
  weather_acc :: "string list"
  waves_acc :: "string list"

definition flat0 :: flat where
  "flat0 = \<lparr>waypoints = [], weather_acc = [], waves_acc = []\<rparr>"

text \<open>The branch for a scalar string value (lines 132-140); the keywords are looked
  for in the whole dotted path, the fact is built from the last key.\<close>

definition flatten_str :: "string \<Rightarrow> string \<Rightarrow> string \<Rightarrow> flat \<Rightarrow> flat" where
  "flatten_str parent_key key s st =
     (let full_key = dot_key parent_key key; key_lower = lower full_key
      in if any_keyword WAYPOINT_KEYWORDS key_lower then st\<lparr>waypoints := waypoints st @ [strip s]\<rparr>
         else if any_keyword WEATHER_KEYWORDS key_lower
           then st\<lparr>weather_acc := weather_acc st @ [fact key s]\<rparr>
         else if any_keyword WAVE_KEYWORDS key_lower
           then st\<lparr>waves_acc := waves_acc st @ [fact key s]\<rparr>
         else st)"

fun fallback_extract :: "'n json \<Rightarrow> string \<Rightarrow> flat \<Rightarrow> flat"
  and fallback_items :: "(string \<times> 'n json) list \<Rightarrow> string \<Rightarrow> flat \<Rightarrow> flat"
  and fallback_elems :: "'n json list \<Rightarrow> string \<Rightarrow> nat \<Rightarrow> flat \<Rightarrow> flat"
where
  "fallback_extract (JObj kvs) parent_key st = fallback_items kvs parent_key st"
| "fallback_extract (JArr xs) parent_key st = fallback_elems xs parent_key 0 st"
| "fallback_extract JNull parent_key st = st"
| "fallback_extract (JBool b) parent_key st = st"
| "fallback_extract (JNum n) parent_key st = st"
| "fallback_extract (JStr s) parent_key st = st"
| "fallback_items [] parent_key st = st"
| "fallback_items ((key, v) # rest) parent_key st =
     (case v of
        JStr s \<Rightarrow>
          if strip s \<noteq> [] then fallback_items rest parent_key (flatten_str parent_key key s st)
          else fallback_items rest parent_key (fallback_extract (JStr s) (dot_key parent_key key) st)
      | _ \<Rightarrow> fallback_items rest parent_key (fallback_extract v (dot_key parent_key key) st))"
| "fallback_elems [] parent_key i st = st"
| "fallback_elems (item # rest) parent_key i st =
     fallback_elems rest parent_key (Suc i)
       (fallback_extract item
          (if parent_key \<noteq> [] then idx_key parent_key i else idx_key [] i) st)"

section \<open>Extraction\<close>

record MaritimeDataset =
  locations :: "LocationRecord list"

text \<open>The primary pass: \<^verbatim>\<open>extract_location_data(data)\<close> run on the empty list.\<close>

definition classify :: "'n json \<Rightarrow> LocationRecord list" where
  "classify data = snd (extract_location_data data [] [])"

text \<open>The fallback (lines 123-155), run only when the primary pass left the list empty.\<close>

definition flatten :: "'n json \<Rightarrow> LocationRecord list" where
  "flatten data =
     (let st = fallback_extract data [] flat0
      in map (\<lambda>waypoint. \<lparr>name = waypoint, weather = weather_acc st, waves = waves_acc st\<rparr>)
           (waypoints st))"

definition takes_fallback :: "'n json \<Rightarrow> bool" where
  "takes_fallback data = (classify data = [])"

definition extract_maritime_data :: "'n json \<Rightarrow> MaritimeDataset" where
  "extract_maritime_data data =
     (let locs = classify data
      in if locs = [] then \<lparr>locations = locs @ flatten data\<rparr> else \<lparr>locations = locs\<rparr>)"

section \<open>Prompt Composer\<close>



section \<open>Extraction under the interpreter's recursion limit\<close>





section \<open>Narrative Segmenter\<close>

text \<open>\<^verbatim>\<open>a // b\<close> on non-negative integers.\<close>

definition floordiv :: "nat \<Rightarrow> nat \<Rightarrow> error + nat" where
  "floordiv a b = (if b = 0 then Inl ZeroDivisionError else Inr (a div b))"

record NarrativeRecord =
  location :: string
  narrative :: string
  n_weather :: "string list option"
  n_waves :: "string list option"

text \<open>\<^verbatim>\<open>.lstrip(':').lstrip('-').lstrip().lstrip(':').lstrip()\<close>\<close>

definition strip_header :: "string \<Rightarrow> string" where
  "strip_header s =
     lstrip (lstrip_char CHR '':'' (lstrip (lstrip_char CHR ''-'' (lstrip_char CHR '':'' s))))"

definition clean_narrative_line :: "string \<Rightarrow> string \<Rightarrow> string" where
  "clean_narrative_line line loc_name =
     (let line1 = remove_bold line;
          line2 = (if prefix (lower loc_name) (lower line1)
                   then strip_header (drop (length loc_name) line1) else line1)
      in strip line2)"

text \<open>The search of lines 211-214: the first location whose name occurs in the line.\<close>

fun find_location :: "LocationRecord list \<Rightarrow> string \<Rightarrow> string option" where
  "find_location [] line = None"
| "find_location (l # ls) line =
     (if contains (lower line) (lower (name l)) then Some (name l) else find_location ls line)"

text \<open>Truth value of an optional string: neither \<^verbatim>\<open>None\<close> nor empty.\<close>

fun truthy :: "string option \<Rightarrow> bool" where
  "truthy None = False"
| "truthy (Some s) = (s \<noteq> [])"

record pstate =
  current_location :: "string option"
  current_narrative :: "string list"
  narratives_acc :: "NarrativeRecord list"

definition pstate0 :: pstate where
  "pstate0 = \<lparr>current_location = None, current_narrative = [], narratives_acc = []\<rparr>"

text \<open>Lines 218-223 and 238-243: save the pending narrative, if there is one.\<close>

definition flush :: "pstate \<Rightarrow> pstate" where
  "flush st =
     (if truthy (current_location st) \<and> current_narrative st \<noteq> []
      then st\<lparr>narratives_acc := narratives_acc st @
             [\<lparr>location = the (current_location st),
               narrative = join '' '' (current_narrative st),
               n_weather = None, n_waves = None\<rparr>]\<rparr>
      else st)"

text \<open>One turn of the loop over \<^verbatim>\<open>response_lines\<close> (lines 204-235).\<close>

definition line_step :: "LocationRecord list \<Rightarrow> string \<Rightarrow> pstate \<Rightarrow> pstate" where
  "line_step locs raw st =
     (let line = strip raw
      in if line = [] then st
         else let found_location = find_location locs line
              in if truthy found_location
                 then let cleaned_line = clean_narrative_line line (the found_location)
                      in (flush st)\<lparr>current_location := found_location,
                            current_narrative := (if cleaned_line \<noteq> [] then [cleaned_line] else [])\<rparr>
                 else if truthy (current_location st)
                   then st\<lparr>current_narrative := current_narrative st @ [line]\<rparr>
                 else st)"

fun primary_loop :: "LocationRecord list \<Rightarrow> string list \<Rightarrow> pstate \<Rightarrow> pstate" where
  "primary_loop locs [] st = st"
| "primary_loop locs (raw # rest) st = primary_loop locs rest (line_step locs raw st)"

definition primary_pass :: "string \<Rightarrow> LocationRecord list \<Rightarrow> NarrativeRecord list" where
  "primary_pass claude_response locs =
     narratives_acc (flush (primary_loop locs (split_on (CHR 0x0A) (strip claude_response)) pstate0))"

text \<open>The search of lines 259-262 in the fallback.\<close>

fun strip_first_prefix :: "LocationRecord list \<Rightarrow> string \<Rightarrow> string" where
  "strip_first_prefix [] nar = nar"
| "strip_first_prefix (loc # ls) nar =
     (if prefix (lower (name loc)) (lower nar) then strip_header (drop (length (name loc)) nar)
      else strip_first_prefix ls nar)"

definition ends_with_dot :: "string \<Rightarrow> bool" where
  "ends_with_dot s = (s \<noteq> [] \<and> last s = CHR ''.'')"

text \<open>\<^verbatim>\<open>sentences[start_idx:end_idx]\<close> for \<open>0 \<le> start_idx \<le> end_idx\<close>.\<close>

definition slice :: "'a list \<Rightarrow> nat \<Rightarrow> nat \<Rightarrow> 'a list" where
  "slice xs start_idx end_idx = take (end_idx - start_idx) (drop start_idx xs)"

text \<open>Lines 255-267: the record made of one chunk of sentences, if any.\<close>

definition emit_record ::
  "LocationRecord list \<Rightarrow> LocationRecord \<Rightarrow> string list \<Rightarrow> NarrativeRecord list" where
  "emit_record locs loc narrative_sentences =
     (let nar = strip (join ''.'' narrative_sentences)
      in if nar \<noteq> []
         then let nar1 = strip_first_prefix locs (remove_bold nar)
              in [\<lparr>location = name loc,
                   narrative = (if \<not> ends_with_dot nar1 then nar1 @ ''.'' else nar1),
                   n_weather = None, n_waves = None\<rparr>]
         else [])"

text \<open>The loop of lines 251-267 over \<^verbatim>\<open>enumerate(locations)\<close>.\<close>

fun fallback_loop ::
  "string list \<Rightarrow> nat \<Rightarrow> LocationRecord list \<Rightarrow> nat \<Rightarrow> LocationRecord list
     \<Rightarrow> NarrativeRecord list \<Rightarrow> NarrativeRecord list" where
  "fallback_loop sentences sentences_per_location locs i [] acc = acc"
| "fallback_loop sentences sentences_per_location locs i (loc # rest) acc =
     (let start_idx = i * sentences_per_location;
          end_idx = start_idx + sentences_per_location;
          narrative_sentences = slice sentences start_idx end_idx
      in fallback_loop sentences sentences_per_location locs (Suc i) rest
           (acc @ emit_record locs loc narrative_sentences))"

definition parse_location_narratives ::
  "string \<Rightarrow> LocationRecord list \<Rightarrow> error + NarrativeRecord list" where
  "parse_location_narratives claude_response locs =
     (let narrs = primary_pass claude_response locs
      in if narrs = [] \<and> locs \<noteq> []
         then let sentences = split_on CHR ''.'' claude_response
              in (case floordiv (length sentences) (length locs) of
                    Inl e \<Rightarrow> Inl e
                  | Inr q \<Rightarrow> Inr (fallback_loop sentences (max 1 q) locs 0 locs narrs))
         else Inr narrs)"

section \<open>Response Assembler\<close>

record ResponseEnvelope =
  narratives :: "NarrativeRecord list"
  model :: string
  timestamp :: string
  locations_count :: nat
  status :: string
  error :: "string option"

text \<open>Lines 332-338: the facts of the first location of equal name, when not empty.\<close>

fun attach :: "LocationRecord list \<Rightarrow> NarrativeRecord \<Rightarrow> NarrativeRecord" where
  "attach [] nr = nr"
| "attach (l # ls) nr =
     (if name l = location nr
      then let nr1 = (if weather l \<noteq> [] then nr\<lparr>n_weather := Some (weather l)\<rparr> else nr)
           in (if waves l \<noteq> [] then nr1\<lparr>n_waves := Some (waves l)\<rparr> else nr1)
      else attach ls nr)"

text \<open>
  \<^verbatim>\<open>create_response_json\<close>; the clock reading \<^verbatim>\<open>datetime.now().isoformat()\<close> is the
  parameter \<open>now\<close>.
\<close>

definition create_response_json ::
  "NarrativeRecord list \<Rightarrow> string \<Rightarrow> 'n json \<Rightarrow> MaritimeDataset option \<Rightarrow> string
     \<Rightarrow> string option \<Rightarrow> string \<Rightarrow> ResponseEnvelope" where
  "create_response_json narrs model_arg input_data maritime_data status_arg error_arg now =
     (let narrs1 = (case maritime_data of
                      Some md \<Rightarrow> (if narrs \<noteq> [] then map (attach (locations md)) narrs else narrs)
                    | None \<Rightarrow> narrs)
      in \<lparr>narratives = narrs1, model = model_arg, timestamp = now,
          locations_count = length narrs1, status = status_arg,
          error = (if truthy error_arg then error_arg else None)\<rparr>)"

section \<open>Descriptions used in the statements\<close>

text \<open>A child of a mapping that yields a fact: a string that is not blank.\<close>

definition is_fact_child :: "string \<times> 'n json \<Rightarrow> bool" where
  "is_fact_child kv = (case snd kv of JStr s \<Rightarrow> strip s \<noteq> [] | _ \<Rightarrow> False)"

text \<open>
  The document with every mapping that sits under a weather or wave key, at a place the
  classifier walks through, cut down to its fact children.
\<close>

fun prune :: "'n json \<Rightarrow> 'n json"
  and prune_items :: "(string \<times> 'n json) list \<Rightarrow> (string \<times> 'n json) list"
  and prune_elems :: "'n json list \<Rightarrow> 'n json list"
where
  "prune (JObj kvs) = JObj (prune_items kvs)"
| "prune (JArr xs) = JArr (prune_elems xs)"
| "prune JNull = JNull"
| "prune (JBool b) = JBool b"
| "prune (JNum n) = JNum n"
| "prune (JStr s) = JStr s"
| "prune_items [] = []"
| "prune_items ((key, v) # rest) =
     (case v of
        JObj sub \<Rightarrow>
          (if any_keyword WEATHER_KEYWORDS (lower key) \<or> any_keyword WAVE_KEYWORDS (lower key)
           then (key, JObj (filter is_fact_child sub)) # prune_items rest
           else (key, prune (JObj sub)) # prune_items rest)
      | JArr xs \<Rightarrow> (key, JArr (prune_elems xs)) # prune_items rest
      | _ \<Rightarrow> (key, v) # prune_items rest)"
| "prune_elems [] = []"
| "prune_elems (item # rest) = prune item # prune_elems rest"

text \<open>Chunk \<open>i\<close> of \<open>k\<close> sentences, and the records of the chunks of all locations.\<close>

definition chunk_of :: "string list \<Rightarrow> nat \<Rightarrow> nat \<Rightarrow> string list" where
  "chunk_of sentences k i = take k (drop (i * k) sentences)"

definition chunked :: "string \<Rightarrow> LocationRecord list \<Rightarrow> nat \<Rightarrow> NarrativeRecord list" where
  "chunked claude_response locs k =
     concat (map (\<lambda>i. emit_record locs (locs ! i) (chunk_of (split_on CHR ''.'' claude_response) k i))
               [0..<length locs])"

text \<open>The fallback as the specification words it: \<open>floor(total/len(locations))\<close> sentences
  per chunk.\<close>

definition spec_fallback :: "string \<Rightarrow> LocationRecord list \<Rightarrow> NarrativeRecord list" where
  "spec_fallback claude_response locs =
     chunked claude_response locs (length (split_on CHR ''.'' claude_response) div length locs)"

text \<open>The lines of the reply in which the primary pass finds a location name.\<close>

definition is_heading :: "LocationRecord list \<Rightarrow> string \<Rightarrow> bool" where
  "is_heading locs raw = (strip raw \<noteq> [] \<and> truthy (find_location locs (strip raw)))"

definition heading_lines :: "string \<Rightarrow> LocationRecord list \<Rightarrow> string list" where
  "heading_lines claude_response locs =
     filter (is_heading locs) (split_on (CHR 0x0A) (strip claude_response))"

text \<open>
  The number of levels of a document, a scalar counting as one: an upper bound on the
  nested calls that the classifier and the flattener make on it.
\<close>

fun nesting :: "'n json \<Rightarrow> nat"
  and nesting_items :: "(string \<times> 'n json) list \<Rightarrow> nat"
  and nesting_elems :: "'n json list \<Rightarrow> nat"
where
  "nesting (JObj kvs) = Suc (nesting_items kvs)"
| "nesting (JArr xs) = Suc (nesting_elems xs)"
| "nesting JNull = 1"
| "nesting (JBool b) = 1"
| "nesting (JNum n) = 1"
| "nesting (JStr s) = 1"
| "nesting_items [] = 0"
| "nesting_items ((key, v) # rest) = max (nesting v) (nesting_items rest)"
| "nesting_elems [] = 0"
| "nesting_elems (item # rest) = max (nesting item) (nesting_elems rest)"




definition pending :: "pstate \<Rightarrow> nat" where
  "pending st = length (narratives_acc st) + (if truthy (current_location st) then 1 else 0)"

section \<open>Fact Classifier: duplicated records\<close>

text \<open>
  C1. The classifier is meant to put one LocationRecord per qualifying mapping node into
  its result, each record appended once. It does not: a call that does not end at line 109
  returns the list \<^verbatim>\<open>locations\<close> itself, and the caller extends \<^verbatim>\<open>locations\<close> by it.
  For the document \<^verbatim>\<open>{"a": {"b": {"name": "X", "wind": "5"}}}\<close>, which has a single
  qualifying node, the result holds its record twice.
\<close>

theorem C1_nested_record_duplicated:
  "classify (JObj [(''a'', JObj [(''b'', JObj [(''name'', JStr ''X''), (''wind'', JStr ''5'')])])]
             :: unit json)
   = [\<lparr>name = ''X'', weather = [''wind: 5''], waves = []\<rparr>,
      \<lparr>name = ''X'', weather = [''wind: 5''], waves = []\<rparr>]"
  by code_simp

section \<open>Extraction: the Cape Cod Bay scenario\<close>

text \<open>
  C5, as stated: on \<^verbatim>\<open>{"waypoint": "Cape Cod Bay", "wind_speed": "12 knots",
  "wave_height": "3 feet"}\<close> extraction takes the fallback path and returns the dataset with
  the single location Cape Cod Bay. The first half fails: the primary pass already finds
  the location.
\<close>

theorem C5_fallback_path_counterexample:
  "\<not> (takes_fallback (JObj [(''waypoint'', JStr ''Cape Cod Bay''),
                             (''wind_speed'', JStr ''12 knots''),
                             (''wave_height'', JStr ''3 feet'')] :: unit json)
      \<and> extract_maritime_data (JObj [(''waypoint'', JStr ''Cape Cod Bay''),
                             (''wind_speed'', JStr ''12 knots''),
                             (''wave_height'', JStr ''3 feet'')] :: unit json)
        = \<lparr>locations = [\<lparr>name = ''Cape Cod Bay'', weather = [''wind_speed: 12 knots''],
                           waves = [''wave_height: 3 feet'']\<rparr>]\<rparr>)"
  by code_simp

text \<open>
  C5, amended: on that document the primary classifier finds the location, the fallback is
  not taken, and the dataset returned is the one the claim names.
\<close>

theorem C5_cape_cod_bay_primary_path:
  "classify (JObj [(''waypoint'', JStr ''Cape Cod Bay''),
                   (''wind_speed'', JStr ''12 knots''),
                   (''wave_height'', JStr ''3 feet'')] :: unit json)
     = [\<lparr>name = ''Cape Cod Bay'', weather = [''wind_speed: 12 knots''],
         waves = [''wave_height: 3 feet'']\<rparr>]
   \<and> takes_fallback (JObj [(''waypoint'', JStr ''Cape Cod Bay''),
                   (''wind_speed'', JStr ''12 knots''),
                   (''wave_height'', JStr ''3 feet'')] :: unit json) = False
   \<and> extract_maritime_data (JObj [(''waypoint'', JStr ''Cape Cod Bay''),
                   (''wind_speed'', JStr ''12 knots''),
                   (''wave_height'', JStr ''3 feet'')] :: unit json)
     = \<lparr>locations = [\<lparr>name = ''Cape Cod Bay'', weather = [''wind_speed: 12 knots''],
                        waves = [''wave_height: 3 feet'']\<rparr>]\<rparr>"
  by code_simp

section \<open>Narrative Segmenter: empty list of locations\<close>

lemma line_step_no_locations:
  "current_location st = None \<Longrightarrow> line_step [] raw st = st"
  by (simp add: line_step_def Let_def)

lemma primary_loop_no_locations:
  "current_location st = None \<Longrightarrow> primary_loop [] ls st = st"
  by (induction ls arbitrary: st) (simp_all add: line_step_no_locations)

lemma primary_pass_no_locations: "primary_pass claude_response [] = []"
  by (simp add: primary_pass_def primary_loop_no_locations pstate0_def flush_def)

text \<open>
  C8. With an empty list of locations the segmenter returns the empty sequence for every
  reply text: the primary pass matches nothing, and the fallback with its division by
  \<open>len(locations)\<close> is not run (were it run, the result would be the division error).
\<close>

theorem C8_empty_locations: "parse_location_narratives claude_response [] = Inr []"
  by (simp add: parse_location_narratives_def primary_pass_no_locations)

section \<open>Response Assembler\<close>

lemma attach_location [simp]: "location (attach ls nr) = location nr"
  by (induction ls) (simp_all add: Let_def)

lemma attach_narrative [simp]: "narrative (attach ls nr) = narrative nr"
  by (induction ls) (simp_all add: Let_def)

text \<open>
  C3, as stated: with \<open>error = "timeout"\<close> the envelope is \<open>{narratives: [], status:
  "error", error: "timeout", locations_count: 0}\<close> whatever narratives were passed in. It is
  not: the narratives passed in are returned and counted, and the status is the one passed
  in (\<open>"success"\<close> when the caller leaves it out).
\<close>

theorem C3_error_envelope_counterexample:
  "create_response_json
     [\<lparr>location = ''A'', narrative = ''calm.'', n_weather = None, n_waves = None\<rparr>]
     ''m'' (JNull :: unit json) None ''success'' (Some ''timeout'') ''t''
   \<noteq> \<lparr>narratives = [], model = ''m'', timestamp = ''t'', locations_count = 0,
       status = ''error'', error = Some ''timeout''\<rparr>"
  by (simp add: create_response_json_def)

text \<open>
  C3, amended: when a non-empty error message is given, the envelope carries it verbatim,
  its status is the status argument, its narratives are the ones passed in (same locations
  and texts, in the same order) and \<open>locations_count\<close> is their number. Called with no
  narratives and status \<open>"error"\<close>, as the callers do on failure, the envelope is
  \<open>{narratives: [], status: "error", error: the message, locations_count: 0}\<close> with the
  model and the timestamp.
\<close>

theorem C3_error_envelope:
  assumes "msg \<noteq> []"
  shows "error (create_response_json narrs m input_data md st (Some msg) now) = Some msg
       \<and> status (create_response_json narrs m input_data md st (Some msg) now) = st
       \<and> locations_count (create_response_json narrs m input_data md st (Some msg) now)
           = length narrs
       \<and> map location (narratives (create_response_json narrs m input_data md st (Some msg) now))
           = map location narrs
       \<and> map narrative (narratives (create_response_json narrs m input_data md st (Some msg) now))
           = map narrative narrs
       \<and> create_response_json [] m input_data md ''error'' (Some msg) now
           = \<lparr>narratives = [], model = m, timestamp = now, locations_count = 0,
               status = ''error'', error = Some msg\<rparr>"
  using assms by (cases md) (simp_all add: create_response_json_def comp_def)

theorem C3_error_envelope_witness:
  "''timeout'' \<noteq> []
   \<and> create_response_json [] ''m'' (JNull :: unit json) None ''error'' (Some ''timeout'') ''t''
       = \<lparr>narratives = [], model = ''m'', timestamp = ''t'', locations_count = 0,
           status = ''error'', error = Some ''timeout''\<rparr>"
  using C3_error_envelope [of "''timeout''" "[]" "''m''" "JNull :: unit json" None "''error''" "''t''"]
  by simp

section \<open>Narrative Segmenter: the result is always a value\<close>

lemma parse_location_narratives_primary:
  "primary_pass t locs \<noteq> [] \<Longrightarrow> parse_location_narratives t locs = Inr (primary_pass t locs)"
  by (simp add: parse_location_narratives_def Let_def)

lemma parse_location_narratives_fallback:
  "primary_pass t locs = [] \<Longrightarrow> locs \<noteq> [] \<Longrightarrow>
   parse_location_narratives t locs =
     Inr (fallback_loop (split_on CHR ''.'' t)
            (max 1 (length (split_on CHR ''.'' t) div length locs)) locs 0 locs [])"
  by (simp add: parse_location_narratives_def floordiv_def Let_def)


section \<open>Extraction under the recursion limit\<close>

lemma nesting_pos [simp]: "nesting d \<noteq> 0"
  by (cases d) simp_all









section \<open>Narrative Segmenter: narratives are not empty\<close>













section \<open>Narrative Segmenter: number of records\<close>

lemma flush_length: "length (narratives_acc (flush st)) \<le> pending st"
  by (simp add: flush_def pending_def)

lemma flush_current [simp]: "current_location (flush st) = current_location st"
  by (simp add: flush_def)

lemma line_step_pending:
  "pending (line_step locs raw st) \<le> pending st + (if is_heading locs raw then 1 else 0)"
  using flush_length[of st]
  by (auto simp: line_step_def Let_def is_heading_def pending_def)

lemma primary_loop_pending:
  "pending (primary_loop locs ls st) \<le> pending st + length (filter (is_heading locs) ls)"
proof (induction ls arbitrary: st)
  case Nil
  then show ?case by simp
next
  case (Cons raw ls)
  show ?case
    using Cons.IH[of "line_step locs raw st"] line_step_pending[of locs raw st]
    by (simp split: if_splits)
qed

lemma primary_pass_length: "length (primary_pass t locs) \<le> length (heading_lines t locs)"
  using primary_loop_pending[of locs "split_on (CHR 0x0A) (strip t)" pstate0]
    flush_length[of "primary_loop locs (split_on (CHR 0x0A) (strip t)) pstate0"]
  by (simp add: primary_pass_def heading_lines_def pending_def pstate0_def)

lemma emit_record_length: "length (emit_record locs loc ch) \<le> 1"
  by (simp add: emit_record_def Let_def)

lemma fallback_loop_length:
  "length (fallback_loop S k locs i rest acc) \<le> length acc + length rest"
proof (induction rest arbitrary: i acc)
  case Nil
  then show ?case by simp
next
  case (Cons loc rest)
  show ?case
    using Cons.IH[of "Suc i" "acc @ emit_record locs loc (slice S (i * k) (i * k + k))"]
      emit_record_length[of locs loc "slice S (i * k) (i * k + k)"]
    by (simp add: Let_def)
qed

text \<open>
  C4, as stated: the segmenter never returns more records than there are locations, on
  either path. On the primary path it does: every line that names a location starts a new
  record, so a reply of two lines that both name the only location gives two records.
\<close>

theorem C4_length_counterexample:
  "parse_location_narratives (''A: x'' @ [CHR 0x0A] @ ''A: y'')
       [\<lparr>name = ''A'', weather = [], waves = []\<rparr>]
     = Inr [\<lparr>location = ''A'', narrative = ''x'', n_weather = None, n_waves = None\<rparr>,
            \<lparr>location = ''A'', narrative = ''y'', n_weather = None, n_waves = None\<rparr>]
   \<and> \<not> length [\<lparr>location = ''A'', narrative = ''x'', n_weather = None, n_waves = None\<rparr>,
               \<lparr>location = ''A'', narrative = ''y'', n_weather = None, n_waves = None\<rparr>]
         \<le> length [\<lparr>name = ''A'', weather = [], waves = []\<rparr>]"
  by code_simp

text \<open>
  C4, amended: on the sentence-split fallback path (the primary pass saved nothing) the
  segmenter returns at most as many records as there are locations. On the primary path it
  returns what the primary pass saved, which is at most one record per line of the reply
  in which a location name is found.
\<close>

theorem C4_length_bound:
  assumes "parse_location_narratives t locs = Inr ns"
  shows "(primary_pass t locs = [] \<longrightarrow> length ns \<le> length locs)
       \<and> (primary_pass t locs \<noteq> [] \<longrightarrow> ns = primary_pass t locs)
       \<and> length (primary_pass t locs) \<le> length (heading_lines t locs)"
proof (intro conjI impI)
  assume e: "primary_pass t locs = []"
  show "length ns \<le> length locs"
  proof (cases "locs = []")
    case True
    with assms e show ?thesis by (simp add: parse_location_narratives_def)
  next
    case False
    with assms e have "ns = fallback_loop (split_on CHR ''.'' t)
        (max 1 (length (split_on CHR ''.'' t) div length locs)) locs 0 locs []"
      by (simp add: parse_location_narratives_fallback)
    then show ?thesis using fallback_loop_length[of _ _ locs 0 locs "[]"] by simp
  qed
next
  assume "primary_pass t locs \<noteq> []"
  with assms show "ns = primary_pass t locs"
    by (simp add: parse_location_narratives_primary)
next
  show "length (primary_pass t locs) \<le> length (heading_lines t locs)"
    by (rule primary_pass_length)
qed

theorem C4_length_bound_witness:
  "parse_location_narratives ''Hello''
       [\<lparr>name = ''A'', weather = [], waves = []\<rparr>, \<lparr>name = ''B'', weather = [], waves = []\<rparr>]
     = Inr [\<lparr>location = ''A'', narrative = ''Hello.'', n_weather = None, n_waves = None\<rparr>]
   \<and> primary_pass ''Hello''
       [\<lparr>name = ''A'', weather = [], waves = []\<rparr>, \<lparr>name = ''B'', weather = [], waves = []\<rparr>] = []
   \<and> length [\<lparr>location = ''A'', narrative = ''Hello.'', n_weather = None, n_waves = None\<rparr>]
       \<le> length [\<lparr>name = ''A'', weather = [], waves = []\<rparr>,
                  \<lparr>name = ''B'', weather = [], waves = []\<rparr>]"
proof -
  have h: "parse_location_narratives ''Hello''
       [\<lparr>name = ''A'', weather = [], waves = []\<rparr>, \<lparr>name = ''B'', weather = [], waves = []\<rparr>]
     = Inr [\<lparr>location = ''A'', narrative = ''Hello.'', n_weather = None, n_waves = None\<rparr>]"
    by code_simp
  have p: "primary_pass ''Hello''
       [\<lparr>name = ''A'', weather = [], waves = []\<rparr>, \<lparr>name = ''B'', weather = [], waves = []\<rparr>] = []"
    by code_simp
  from C4_length_bound[OF h] p show ?thesis using h by simp
qed

section \<open>Fact Classifier: mappings under a weather or wave key\<close>




lemma prune_example:
  "prune (JObj [(''weather'', JObj [(''wind'', JStr ''5 kn''),
                                   (''gusts'', JNum (7 :: nat)),
                                   (''blank'', JStr ''  ''),
                                   (''inner'', JObj [(''name'', JStr ''X''), (''wind'', JStr ''9'')]),
                                   (''list'', JArr [JStr ''a''])])])
   = JObj [(''weather'', JObj [(''wind'', JStr ''5 kn'')])]"
  by code_simp


section \<open>Narrative Segmenter: the sentence-split fallback\<close>

lemma slice_chunk: "slice S (i * k) (i * k + k) = chunk_of S k i"
  by (simp add: slice_def chunk_of_def)

lemma fallback_loop_chunks:
  "fallback_loop S k locs i rest acc =
     acc @ concat (map (\<lambda>j. emit_record locs (rest ! j) (chunk_of S k (i + j)))
                     [0..<length rest])"
proof (induction rest arbitrary: i acc)
  case Nil
  then show ?case by simp
next
  case (Cons loc rest)
  have "[0..<length (loc # rest)] = 0 # map Suc [0..<length rest]"
    by (simp add: upt_conv_Cons map_Suc_upt del: upt_Suc)
  then show ?case
    by (simp add: Let_def slice_chunk Cons.IH comp_def del: upt_Suc)
qed

lemma chunks_cover: "concat (map (chunk_of S k) [0..<n]) = take (n * k) S"
proof (induction n)
  case 0
  then show ?case by simp
next
  case (Suc n)
  have "take (n * k + k) S = take (n * k) S @ take k (drop (n * k) S)"
    by (simp add: take_add)
  then show ?case using Suc by (simp add: chunk_of_def add.commute)
qed

lemma chunk_full:
  assumes "i < n" "n * k \<le> length S"
  shows "length (chunk_of S k i) = k"
proof -
  from assms(1) have "Suc i * k \<le> n * k" by (intro mult_le_mono1) simp
  with assms(2) have "i * k + k \<le> length S" by simp
  then show ?thesis by (simp add: chunk_of_def)
qed

lemma max_one_div:
  assumes "n \<le> (m :: nat)" "0 < n"
  shows "max 1 (m div n) = m div n"
proof -
  from assms have "1 \<le> m div n"
    by (simp add: Suc_le_eq div_greater_zero_iff)
  then show ?thesis by simp
qed

text \<open>
  C6, as stated: on the fallback path location \<open>i\<close> receives the chunk of exactly
  \<open>floor(total/len(locations))\<close> sentences that starts at \<open>i * floor(total/len(locations))\<close>.
  The code takes \<open>max(1, floor(total/len(locations)))\<close> sentences instead: with fewer
  sentences than locations the chunks hold one sentence each, not none. The reply
  \<open>"Hello"\<close> for two locations is one sentence; the first location gets it.
\<close>

theorem C6_chunk_size_counterexample:
  "primary_pass ''Hello''
       [\<lparr>name = ''A'', weather = [], waves = []\<rparr>, \<lparr>name = ''B'', weather = [], waves = []\<rparr>] = []
   \<and> parse_location_narratives ''Hello''
       [\<lparr>name = ''A'', weather = [], waves = []\<rparr>, \<lparr>name = ''B'', weather = [], waves = []\<rparr>]
     = Inr [\<lparr>location = ''A'', narrative = ''Hello.'', n_weather = None, n_waves = None\<rparr>]
   \<and> spec_fallback ''Hello''
       [\<lparr>name = ''A'', weather = [], waves = []\<rparr>, \<lparr>name = ''B'', weather = [], waves = []\<rparr>] = []"
  by code_simp

text \<open>
  C6, amended: on the fallback path the reply is split on \<open>"."\<close> and location \<open>i\<close>
  receives the chunk that starts at sentence \<open>i * k\<close> and holds \<open>k\<close> sentences (fewer where
  the reply ends before), with \<open>k = max(1, floor(total/len(locations)))\<close>. The chunks of all
  locations together are the first \<open>len(locations) * k\<close> sentences, in order; later
  sentences are dropped. When there are at least as many sentences as locations,
  \<open>k = floor(total/len(locations))\<close>, every chunk holds exactly \<open>k\<close> sentences, and the
  result is the one the specification describes.
\<close>

theorem C6_fallback_chunks:
  assumes "primary_pass t locs = []" and "locs \<noteq> []"
  shows "parse_location_narratives t locs
           = Inr (chunked t locs (max 1 (length (split_on CHR ''.'' t) div length locs)))
       \<and> concat (map (chunk_of (split_on CHR ''.'' t)
                        (max 1 (length (split_on CHR ''.'' t) div length locs)))
                   [0..<length locs])
           = take (length locs * max 1 (length (split_on CHR ''.'' t) div length locs))
               (split_on CHR ''.'' t)
       \<and> (length locs \<le> length (split_on CHR ''.'' t) \<longrightarrow>
            parse_location_narratives t locs = Inr (spec_fallback t locs)
            \<and> (\<forall>i < length locs.
                 length (chunk_of (split_on CHR ''.'' t)
                           (length (split_on CHR ''.'' t) div length locs) i)
                   = length (split_on CHR ''.'' t) div length locs))"
proof (intro conjI impI allI)
  show code: "parse_location_narratives t locs
           = Inr (chunked t locs (max 1 (length (split_on CHR ''.'' t) div length locs)))"
    using assms
    by (simp add: parse_location_narratives_fallback fallback_loop_chunks chunked_def)
  show "concat (map (chunk_of (split_on CHR ''.'' t)
                        (max 1 (length (split_on CHR ''.'' t) div length locs)))
                   [0..<length locs])
           = take (length locs * max 1 (length (split_on CHR ''.'' t) div length locs))
               (split_on CHR ''.'' t)"
    by (rule chunks_cover)
  {
    assume enough: "length locs \<le> length (split_on CHR ''.'' t)"
    from assms(2) have pos: "0 < length locs" by simp
    from max_one_div[OF enough pos] code
    show "parse_location_narratives t locs = Inr (spec_fallback t locs)"
      by (simp add: spec_fallback_def)
    fix i
    assume "i < length locs"
    moreover have "length locs * (length (split_on CHR ''.'' t) div length locs)
                     \<le> length (split_on CHR ''.'' t)"
      by simp
    ultimately show "length (chunk_of (split_on CHR ''.'' t)
                           (length (split_on CHR ''.'' t) div length locs) i)
                   = length (split_on CHR ''.'' t) div length locs"
      by (rule chunk_full)
  }
qed

theorem C6_fallback_chunks_witness:
  "primary_pass ''x. y. z. w. v''
       [\<lparr>name = ''A'', weather = [], waves = []\<rparr>, \<lparr>name = ''B'', weather = [], waves = []\<rparr>] = []
   \<and> parse_location_narratives ''x. y. z. w. v''
       [\<lparr>name = ''A'', weather = [], waves = []\<rparr>, \<lparr>name = ''B'', weather = [], waves = []\<rparr>]
     = Inr (spec_fallback ''x. y. z. w. v''
       [\<lparr>name = ''A'', weather = [], waves = []\<rparr>, \<lparr>name = ''B'', weather = [], waves = []\<rparr>])
   \<and> spec_fallback ''x. y. z. w. v''
       [\<lparr>name = ''A'', weather = [], waves = []\<rparr>, \<lparr>name = ''B'', weather = [], waves = []\<rparr>]
     = [\<lparr>location = ''A'', narrative = ''x. y.'', n_weather = None, n_waves = None\<rparr>,
        \<lparr>location = ''B'', narrative = ''z. w.'', n_weather = None, n_waves = None\<rparr>]"
proof -
  have p: "primary_pass ''x. y. z. w. v''
       [\<lparr>name = ''A'', weather = [], waves = []\<rparr>, \<lparr>name = ''B'', weather = [], waves = []\<rparr>] = []"
    by code_simp
  have n: "[\<lparr>name = ''A'', weather = [], waves = []\<rparr>, \<lparr>name = ''B'', weather = [], waves = []\<rparr>]
             \<noteq> []"
    by simp
  have e: "length [\<lparr>name = ''A'', weather = [], waves = []\<rparr>,
                   \<lparr>name = ''B'', weather = [], waves = []\<rparr>]
             \<le> length (split_on CHR ''.'' ''x. y. z. w. v'')"
    by code_simp
  have v: "spec_fallback ''x. y. z. w. v''
       [\<lparr>name = ''A'', weather = [], waves = []\<rparr>, \<lparr>name = ''B'', weather = [], waves = []\<rparr>]
     = [\<lparr>location = ''A'', narrative = ''x. y.'', n_weather = None, n_waves = None\<rparr>,
        \<lparr>location = ''B'', narrative = ''z. w.'', n_weather = None, n_waves = None\<rparr>]"
    by code_simp
  from C6_fallback_chunks[OF p n] e
  have "parse_location_narratives ''x. y. z. w. v''
       [\<lparr>name = ''A'', weather = [], waves = []\<rparr>, \<lparr>name = ''B'', weather = [], waves = []\<rparr>]
     = Inr (spec_fallback ''x. y. z. w. v''
       [\<lparr>name = ''A'', weather = [], waves = []\<rparr>, \<lparr>name = ''B'', weather = [], waves = []\<rparr>])"
    by blast
  with p v show ?thesis by simp
qed

section \<open>Narrative Segmenter: the round trip\<close>

lemma dropWhile_id: "xs \<noteq> [] \<Longrightarrow> \<not> P (hd xs) \<Longrightarrow> dropWhile P xs = xs"
  by (cases xs) simp_all

lemma strip_id:
  assumes "s \<noteq> []" "\<not> is_space (hd s)" "\<not> is_space (last s)"
  shows "strip s = s"
proof -
  have "dropWhile is_space s = s" using assms(1,2) by (rule dropWhile_id)
  moreover have "dropWhile is_space (rev s) = rev s"
    using assms(1,3) by (intro dropWhile_id) (simp_all add: hd_rev)
  ultimately show ?thesis by (simp add: strip_def)
qed

lemma split_on_no_sep: "d \<notin> set s \<Longrightarrow> split_on d s = [s]"
  by (induction s) (auto simp: Let_def)

lemma split_on_append: "d \<notin> set a \<Longrightarrow> split_on d (a @ d # b) = a # split_on d b"
  by (induction a) (auto simp: Let_def)

lemma remove_bold_id: "CHR ''*'' \<notin> set s \<Longrightarrow> remove_bold s = s"
  by (induction s rule: remove_bold.induct) auto

lemma lower_append: "lower (a @ b) = lower a @ lower b"
  by (simp add: lower_def)

lemma length_lower [simp]: "length (lower s) = length s"
  by (simp add: lower_def)

lemma contains_prefix: "prefix p s \<Longrightarrow> contains s p"
  by (cases s) simp_all

lemma is_space_blank: "is_space CHR '' ''"
  by (simp add: is_space_def)

lemma strip_header_colon_blank:
  assumes "b \<noteq> []" "\<not> is_space (hd b)" "hd b \<noteq> CHR '':''"
  shows "strip_header ('': '' @ b) = b"
  using assms
  by (simp add: strip_header_def lstrip_def lstrip_char_def is_space_blank dropWhile_id)

lemma clean_heading:
  assumes "CHR ''*'' \<notin> set n" "CHR ''*'' \<notin> set b"
    and "b \<noteq> []" "\<not> is_space (hd b)" "hd b \<noteq> CHR '':''" "\<not> is_space (last b)"
  shows "clean_narrative_line (n @ '': '' @ b) n = b"
proof -
  have "remove_bold (n @ '': '' @ b) = n @ '': '' @ b"
    using assms(1,2) by (intro remove_bold_id) simp
  moreover have "prefix (lower n) (lower (n @ '': '' @ b))"
    by (simp add: lower_append)
  moreover have "strip_header ('': '' @ b) = b"
    using assms(3-5) by (rule strip_header_colon_blank)
  moreover have "strip b = b" using assms(3,4,6) by (rule strip_id)
  ultimately show ?thesis
    by (simp add: clean_narrative_line_def Let_def)
qed

lemma heading_step:
  assumes n: "n \<noteq> []" "\<not> is_space (hd n)"
    and star: "CHR ''*'' \<notin> set n" "CHR ''*'' \<notin> set b"
    and b: "b \<noteq> []" "\<not> is_space (hd b)" "hd b \<noteq> CHR '':''" "\<not> is_space (last b)"
    and found: "find_location locs (n @ '': '' @ b) = Some n"
  shows "line_step locs (n @ '': '' @ b) st
           = (flush st)\<lparr>current_location := Some n, current_narrative := [b]\<rparr>"
proof -
  have "strip (n @ '': '' @ b) = n @ '': '' @ b"
    using n b by (intro strip_id) (simp_all add: hd_append)
  moreover have "clean_narrative_line (n @ '': '' @ b) n = b"
    using star b by (rule clean_heading)
  ultimately show ?thesis using n(1) b(1) found
    by (simp add: line_step_def Let_def)
qed

lemma single_line_reply:
  assumes n1: "n1 \<noteq> []" "\<not> is_space (hd n1)"
    and nl: "CHR 0x0A \<notin> set n1" "CHR 0x0A \<notin> set n2"
    and star: "CHR ''*'' \<notin> set n1" "CHR ''*'' \<notin> set n2"
  shows "parse_location_narratives (n1 @ '': sentence one. '' @ n2 @ '': sentence two.'')
           [\<lparr>name = n1, weather = w1, waves = v1\<rparr>, \<lparr>name = n2, weather = w2, waves = v2\<rparr>]
         = Inr [\<lparr>location = n1, narrative = ''sentence one. '' @ n2 @ '': sentence two.'',
                 n_weather = None, n_waves = None\<rparr>]"
proof -
  let ?b = "''sentence one. '' @ n2 @ '': sentence two.''"
  let ?t = "n1 @ '': '' @ ?b"
  let ?locs = "[\<lparr>name = n1, weather = w1, waves = v1\<rparr>, \<lparr>name = n2, weather = w2, waves = v2\<rparr>]"
  have t: "n1 @ '': sentence one. '' @ n2 @ '': sentence two.'' = ?t" by simp
  have st: "strip ?t = ?t"
    using n1 by (intro strip_id) (simp_all add: hd_append is_space_def)
  have sp: "split_on (CHR 0x0A) ?t = [?t]"
    using nl by (intro split_on_no_sep) simp
  have found: "find_location ?locs ?t = Some n1"
    by (simp add: contains_prefix lower_append)
  have step: "line_step ?locs ?t pstate0
                = (flush pstate0)\<lparr>current_location := Some n1, current_narrative := [?b]\<rparr>"
    using n1 star found by (intro heading_step) (simp_all add: is_space_def)
  have "primary_pass ?t ?locs
          = [\<lparr>location = n1, narrative = ?b, n_weather = None, n_waves = None\<rparr>]"
    using n1(1) by (simp only: primary_pass_def st sp primary_loop.simps step)
       (simp add: flush_def pstate0_def)
  then show ?thesis
    by (simp only: t) (simp add: parse_location_narratives_def)
qed

lemma two_line_reply:
  assumes n1: "n1 \<noteq> []" "\<not> is_space (hd n1)"
    and n2: "n2 \<noteq> []" "\<not> is_space (hd n2)"
    and nl: "CHR 0x0A \<notin> set n1" "CHR 0x0A \<notin> set n2"
    and star: "CHR ''*'' \<notin> set n1" "CHR ''*'' \<notin> set n2"
    and other: "\<not> contains (lower (n2 @ '': sentence two.'')) (lower n1)"
  shows "parse_location_narratives
           (n1 @ '': sentence one.'' @ [CHR 0x0A] @ n2 @ '': sentence two.'')
           [\<lparr>name = n1, weather = w1, waves = v1\<rparr>, \<lparr>name = n2, weather = w2, waves = v2\<rparr>]
         = Inr [\<lparr>location = n1, narrative = ''sentence one.'', n_weather = None, n_waves = None\<rparr>,
                \<lparr>location = n2, narrative = ''sentence two.'', n_weather = None, n_waves = None\<rparr>]"
proof -
  let ?l1 = "n1 @ '': '' @ ''sentence one.''"
  let ?l2 = "n2 @ '': '' @ ''sentence two.''"
  let ?t = "?l1 @ CHR 0x0A # ?l2"
  let ?locs = "[\<lparr>name = n1, weather = w1, waves = v1\<rparr>, \<lparr>name = n2, weather = w2, waves = v2\<rparr>]"
  have t: "n1 @ '': sentence one.'' @ [CHR 0x0A] @ n2 @ '': sentence two.'' = ?t" by simp
  have st: "strip ?t = ?t"
    using n1 by (intro strip_id) (simp_all add: hd_append is_space_def)
  have sp: "split_on (CHR 0x0A) ?t = [?l1, ?l2]"
  proof -
    have "CHR 0x0A \<notin> set ?l1" using nl by simp
    then have "split_on (CHR 0x0A) ?t = ?l1 # split_on (CHR 0x0A) ?l2"
      by (rule split_on_append)
    moreover have "split_on (CHR 0x0A) ?l2 = [?l2]"
      using nl by (intro split_on_no_sep) simp
    ultimately show ?thesis by simp
  qed
  have found1: "find_location ?locs ?l1 = Some n1"
    by (simp add: contains_prefix lower_append)
  have found2: "find_location ?locs ?l2 = Some n2"
    using other by (simp add: contains_prefix lower_append)
  have step1: "line_step ?locs ?l1 pstate0
      = (flush pstate0)\<lparr>current_location := Some n1, current_narrative := [''sentence one.'']\<rparr>"
    using n1 star found1 by (intro heading_step) (simp_all add: is_space_def)
  have step2: "\<And>st. line_step ?locs ?l2 st
      = (flush st)\<lparr>current_location := Some n2, current_narrative := [''sentence two.'']\<rparr>"
    using n2 star found2 by (intro heading_step) (simp_all add: is_space_def)
  have "primary_pass ?t ?locs
          = [\<lparr>location = n1, narrative = ''sentence one.'', n_weather = None, n_waves = None\<rparr>,
             \<lparr>location = n2, narrative = ''sentence two.'', n_weather = None, n_waves = None\<rparr>]"
    using n1(1) n2(1) by (simp only: primary_pass_def st sp primary_loop.simps step1 step2)
       (simp add: flush_def pstate0_def)
  then show ?thesis
    by (simp only: t) (simp add: parse_location_narratives_def)
qed

text \<open>
  C2, as stated: for the one-line reply \<open>"{name1}: sentence one. {name2}: sentence two."\<close>
  and the locations name1, name2 the segmenter returns two records, one per name. It
  returns one: the primary pass works line by line, finds the first listed name in the
  only line and keeps the rest of the line as that location's narrative.
\<close>

theorem C2_round_trip_counterexample:
  "parse_location_narratives ''Cape Cod Bay: sentence one. Georges Bank: sentence two.''
       [\<lparr>name = ''Cape Cod Bay'', weather = [], waves = []\<rparr>,
        \<lparr>name = ''Georges Bank'', weather = [], waves = []\<rparr>]
   \<noteq> Inr [\<lparr>location = ''Cape Cod Bay'', narrative = ''sentence one.'',
            n_weather = None, n_waves = None\<rparr>,
           \<lparr>location = ''Georges Bank'', narrative = ''sentence two.'',
            n_weather = None, n_waves = None\<rparr>]"
  by code_simp

text \<open>
  C2, amended: let name1 and name2 be non-empty names that do not start with white space
  and hold neither a line break nor an asterisk, with name1 not occurring, whatever the
  case of the letters, in the line \<open>"{name2}: sentence two."\<close>. When each passage is on a
  line of its own, \<open>"{name1}: sentence one.\n{name2}: sentence two."\<close>, the segmenter
  returns exactly the two records \<open>{location: name1, narrative: "sentence one."}\<close> and
  \<open>{location: name2, narrative: "sentence two."}\<close>, the leading name and colon stripped
  from each. For the one-line reply of the claim it returns the single record
  \<open>{location: name1, narrative: "sentence one. {name2}: sentence two."}\<close>.
\<close>

theorem C2_round_trip_by_lines:
  assumes "n1 \<noteq> []" and "\<not> is_space (hd n1)"
    and "n2 \<noteq> []" and "\<not> is_space (hd n2)"
    and "CHR 0x0A \<notin> set n1" and "CHR 0x0A \<notin> set n2"
    and "CHR ''*'' \<notin> set n1" and "CHR ''*'' \<notin> set n2"
    and "\<not> contains (lower (n2 @ '': sentence two.'')) (lower n1)"
  shows "parse_location_narratives
           (n1 @ '': sentence one.'' @ [CHR 0x0A] @ n2 @ '': sentence two.'')
           [\<lparr>name = n1, weather = w1, waves = v1\<rparr>, \<lparr>name = n2, weather = w2, waves = v2\<rparr>]
         = Inr [\<lparr>location = n1, narrative = ''sentence one.'', n_weather = None, n_waves = None\<rparr>,
                \<lparr>location = n2, narrative = ''sentence two.'', n_weather = None, n_waves = None\<rparr>]
       \<and> parse_location_narratives (n1 @ '': sentence one. '' @ n2 @ '': sentence two.'')
           [\<lparr>name = n1, weather = w1, waves = v1\<rparr>, \<lparr>name = n2, weather = w2, waves = v2\<rparr>]
         = Inr [\<lparr>location = n1, narrative = ''sentence one. '' @ n2 @ '': sentence two.'',
                 n_weather = None, n_waves = None\<rparr>]"
  using two_line_reply[OF assms] single_line_reply[OF assms(1,2,5,6,7,8)] by (rule conjI)

theorem C2_round_trip_by_lines_witness:
  "parse_location_narratives
     (''Cape Cod Bay: sentence one.'' @ [CHR 0x0A] @ ''Georges Bank: sentence two.'')
     [\<lparr>name = ''Cape Cod Bay'', weather = [], waves = []\<rparr>,
      \<lparr>name = ''Georges Bank'', weather = [], waves = []\<rparr>]
   = Inr [\<lparr>location = ''Cape Cod Bay'', narrative = ''sentence one.'',
            n_weather = None, n_waves = None\<rparr>,
          \<lparr>location = ''Georges Bank'', narrative = ''sentence two.'',
            n_weather = None, n_waves = None\<rparr>]"
proof -
  have h1: "''Cape Cod Bay'' \<noteq> []" by simp
  have h2: "\<not> is_space (hd ''Cape Cod Bay'')" by (simp add: is_space_def)
  have h3: "''Georges Bank'' \<noteq> []" by simp
  have h4: "\<not> is_space (hd ''Georges Bank'')" by (simp add: is_space_def)
  have h5: "CHR 0x0A \<notin> set ''Cape Cod Bay''" by simp
  have h6: "CHR 0x0A \<notin> set ''Georges Bank''" by simp
  have h7: "CHR ''*'' \<notin> set ''Cape Cod Bay''" by simp
  have h8: "CHR ''*'' \<notin> set ''Georges Bank''" by simp
  have h9: "\<not> contains (lower (''Georges Bank'' @ '': sentence two.'')) (lower ''Cape Cod Bay'')"
    by code_simp
  from C2_round_trip_by_lines[OF h1 h2 h3 h4 h5 h6 h7 h8 h9, of "[]" "[]" "[]" "[]"]
  show ?thesis by simp
qed

end
